theory Spec2Isabelle
  imports Main "HOL-Library.Word" "HOL-Library.Log_Nat"
begin

section \<open>JavaScript numbers\<close>

text \<open>
  The enhancement pass of the camera module computes on JavaScript Numbers, which are
  IEEE 754 binary64 values. A finite Number is modelled exactly, as an integer mantissa
  and a binary exponent: \<open>Fin m e\<close> stands for \<open>m * 2 ^ e\<close>. Every arithmetic operation
  computes the exact result and rounds it to a 53 bit significand, to nearest, ties to
  even, as the hardware does. \<open>NaN\<close> is what arithmetic on \<open>undefined\<close> gives (a read
  beyond the end of a typed array).

  Signed zeros and the exponent range of binary64 (overflow to infinity, gradual
  underflow) are not modelled. They play no part in this program: every value that the
  enhancement pass computes from a byte is zero or lies in the normal range of binary64
  (lemma \<open>enhance_steps_binary64\<close>), where rounding to 53 bits is all that binary64
  does, and a zero of either sign is stored as the byte 0.
\<close>

datatype number = NaN | Fin int int

text \<open>The rational number that a finite Number stands for.\<close>

definition pow2 :: "int \<Rightarrow> rat" where
  "pow2 e = (if 0 \<le> e then 2 ^ nat e else 1 / 2 ^ nat (- e))"

fun num_val :: "number \<Rightarrow> rat" where
  "num_val NaN = 0"
| "num_val (Fin m e) = of_int m * pow2 e"

text \<open>\<open>rne m d\<close> is \<open>m / 2 ^ d\<close> rounded to the nearest integer, a tie going to the even one.\<close>

definition rne :: "int \<Rightarrow> nat \<Rightarrow> int" where
  "rne m d =
     (let q = m div 2 ^ d; r = m mod 2 ^ d
      in if 2 * r < 2 ^ d then q
         else if 2 ^ d < 2 * r then q + 1
         else if even q then q else q + 1)"

text \<open>Rounding the exact value \<open>m * 2 ^ e\<close> to binary64: at most 53 significant bits are kept.\<close>

definition fl :: "int \<Rightarrow> int \<Rightarrow> number" where
  "fl m e =
     (let n = bitlen \<bar>m\<bar>
      in if n \<le> 53 then Fin m e
         else Fin (rne m (nat (n - 53))) (e + (n - 53)))"

fun num_mul :: "number \<Rightarrow> number \<Rightarrow> number" where
  "num_mul (Fin m1 e1) (Fin m2 e2) = fl (m1 * m2) (e1 + e2)"
| "num_mul _ _ = NaN"

fun num_add :: "number \<Rightarrow> number \<Rightarrow> number" where
  "num_add (Fin m1 e1) (Fin m2 e2) =
     (let e = min e1 e2
      in fl (m1 * 2 ^ nat (e1 - e) + m2 * 2 ^ nat (e2 - e)) e)"
| "num_add _ _ = NaN"

fun num_neg :: "number \<Rightarrow> number" where
  "num_neg (Fin m e) = Fin (- m) e"
| "num_neg NaN = NaN"

definition num_sub :: "number \<Rightarrow> number \<Rightarrow> number" where
  "num_sub a b = num_add a (num_neg b)"

text \<open>
  \<open>is_binary64 x\<close>: the Number is zero, or it has at most 53 significant bits and a
  magnitude from \<open>2 ^ - 1022\<close> up to, but not including, \<open>2 ^ 1024\<close>.
\<close>

fun is_binary64 :: "number \<Rightarrow> bool" where
  "is_binary64 NaN \<longleftrightarrow> False"
| "is_binary64 (Fin m e) \<longleftrightarrow>
     m = 0 \<or>
     (let n = bitlen \<bar>m\<bar>
      in (n \<le> 53 \<or> m mod 2 ^ nat (n - 53) = 0) \<and> - 1021 \<le> n + e \<and> n + e \<le> 1024)"

text \<open>\<open>num_less a b\<close> is JavaScript's \<open>a < b\<close>; it is false when an operand is NaN.\<close>

fun num_less :: "number \<Rightarrow> number \<Rightarrow> bool" where
  "num_less (Fin m1 e1) (Fin m2 e2) =
     (let e = min e1 e2 in m1 * 2 ^ nat (e1 - e) < m2 * 2 ^ nat (e2 - e))"
| "num_less _ _ = False"

text \<open>\<open>Math.max\<close> and \<open>Math.min\<close> of two arguments: NaN if either argument is NaN.\<close>

fun Math_max :: "number \<Rightarrow> number \<Rightarrow> number" where
  "Math_max NaN _ = NaN"
| "Math_max _ NaN = NaN"
| "Math_max a b = (if num_less a b then b else a)"

fun Math_min :: "number \<Rightarrow> number \<Rightarrow> number" where
  "Math_min NaN _ = NaN"
| "Math_min _ NaN = NaN"
| "Math_min a b = (if num_less b a then b else a)"

text \<open>An integer literal, and the Number read from a byte, are exact.\<close>

definition num_of_int :: "int \<Rightarrow> number" where
  "num_of_int k = Fin k 0"

text \<open>
  The literals \<open>1.4\<close> and \<open>1.1\<close> denote the binary64 values nearest to 14/10 and 11/10
  (lemmas \<open>contrastFactor_nearest\<close> and \<open>brightnessFactor_nearest\<close>).
\<close>

definition contrastFactor :: number where
  "contrastFactor = Fin 6305039478318694 (- 52)"

definition brightnessFactor :: number where
  "brightnessFactor = Fin 4953959590107546 (- 52)"

text \<open>
  The conversion applied by a store into a \<open>Uint8ClampedArray\<close> (ECMAScript
  \<open>ToUint8Clamp\<close>): NaN becomes 0, the value is clamped to 0..255 and rounded to the
  nearest integer, a tie going to the even one.
\<close>

fun ToUint8Clamp :: "number \<Rightarrow> int" where
  "ToUint8Clamp NaN = 0"
| "ToUint8Clamp (Fin m e) =
     (if \<not> num_less (Fin 0 0) (Fin m e) then 0
      else if \<not> num_less (Fin m e) (Fin 255 0) then 255
      else if 0 \<le> e then m * 2 ^ nat e
      else rne m (nat (- e)))"

section \<open>Pixel buffers\<close>

text \<open>
  \<open>ImageData\<close>: the dimensions and the \<open>Uint8ClampedArray\<close> of RGBA samples, four bytes
  per pixel.
\<close>

type_synonym byte = "8 word"

record ImageData =
  width :: nat
  height :: nat
  data :: "byte list"

text \<open>Reading an element: \<open>undefined\<close> beyond the end, which arithmetic turns into NaN.\<close>

definition get_elem :: "byte list \<Rightarrow> nat \<Rightarrow> number" where
  "get_elem d i = (if i < length d then num_of_int (uint (d ! i)) else NaN)"

text \<open>Storing into an element: ignored beyond the end of the typed array.\<close>

definition set_elem :: "byte list \<Rightarrow> nat \<Rightarrow> number \<Rightarrow> byte list" where
  "set_elem d i x = (if i < length d then d[i := word_of_int (ToUint8Clamp x)] else d)"

section \<open>The enhancement pass (\<open>enhanceImageForOCR\<close>)\<close>

definition contrast :: "number \<Rightarrow> number" where
  "contrast r = num_add (num_mul (num_sub r (num_of_int 128)) contrastFactor) (num_of_int 128)"

definition brightness :: "number \<Rightarrow> number" where
  "brightness r = num_mul r brightnessFactor"

definition limit :: "number \<Rightarrow> number" where
  "limit r = Math_min (num_of_int 255) (Math_max (num_of_int 0) r)"

text \<open>One iteration of the loop: the three colour samples of the pixel at index \<open>i\<close>.\<close>

definition enhance_pixel :: "byte list \<Rightarrow> nat \<Rightarrow> byte list" where
  "enhance_pixel d i =
     (let r = get_elem d i;
          g = get_elem d (i + 1);
          b = get_elem d (i + 2);
          r = contrast r;
          g = contrast g;
          b = contrast b;
          r = brightness r;
          g = brightness g;
          b = brightness b;
          d = set_elem d i (limit r);
          d = set_elem d (i + 1) (limit g);
          d = set_elem d (i + 2) (limit b)
      in d)"

lemma length_set_elem: "length (set_elem d i x) = length d"
  by (simp add: set_elem_def)

lemma length_enhance_pixel: "length (enhance_pixel d i) = length d"
  by (simp add: enhance_pixel_def Let_def length_set_elem)

function enhance_loop :: "nat \<Rightarrow> byte list \<Rightarrow> byte list" where
  "enhance_loop i d = (if i < length d then enhance_loop (i + 4) (enhance_pixel d i) else d)"
  by pat_completeness auto
termination
  by (relation "measure (\<lambda>(i, d). length d - i)") (auto simp: length_enhance_pixel)

declare enhance_loop.simps [simp del]

definition enhanceImageForOCR :: "ImageData \<Rightarrow> ImageData" where
  "enhanceImageForOCR imageData = imageData\<lparr>data := enhance_loop 0 (data imageData)\<rparr>"

text \<open>What the pass stores for a colour sample \<open>v\<close>.\<close>

definition enhance_number :: "number \<Rightarrow> number" where
  "enhance_number r = limit (brightness (contrast r))"

definition enhance_channel :: "byte \<Rightarrow> byte" where
  "enhance_channel v = word_of_int (ToUint8Clamp (enhance_number (num_of_int (uint v))))"

text \<open>The Numbers computed on the way, for a sample that reads as the integer \<open>n\<close>.\<close>

definition enhance_steps :: "int \<Rightarrow> number list" where
  "enhance_steps n =
     (let r0 = num_of_int n;
          r1 = num_sub r0 (num_of_int 128);
          r2 = num_mul r1 contrastFactor;
          r3 = num_add r2 (num_of_int 128);
          r4 = num_mul r3 brightnessFactor;
          r5 = Math_max (num_of_int 0) r4;
          r6 = Math_min (num_of_int 255) r5
      in [r0, r1, r2, r3, r4, r5, r6])"

text \<open>
  The check that these Numbers are binary64 values, written so that each of them is
  computed once.
\<close>

definition steps_ok :: "int \<Rightarrow> bool" where
  "steps_ok n \<longleftrightarrow>
     is_binary64 (num_of_int n) \<and>
     (case num_sub (num_of_int n) (num_of_int 128) of
        NaN \<Rightarrow> False
      | Fin m1 e1 \<Rightarrow>
          is_binary64 (Fin m1 e1) \<and>
          (case num_mul (Fin m1 e1) contrastFactor of
             NaN \<Rightarrow> False
           | Fin m2 e2 \<Rightarrow>
               is_binary64 (Fin m2 e2) \<and>
               (case num_add (Fin m2 e2) (num_of_int 128) of
                  NaN \<Rightarrow> False
                | Fin m3 e3 \<Rightarrow>
                    is_binary64 (Fin m3 e3) \<and>
                    is_binary64 (num_mul (Fin m3 e3) brightnessFactor))))"

text \<open>
  The formula of the specification, over the rationals:
  \<open>clamp(0, 255, ((v - 128) * 1.4 + 128) * 1.1)\<close>.
\<close>

definition clamp :: "rat \<Rightarrow> rat \<Rightarrow> rat \<Rightarrow> rat" where
  "clamp lo hi x = max lo (min hi x)"

definition spec_enhance :: "int \<Rightarrow> rat" where
  "spec_enhance v = clamp 0 255 (((of_int v - 128) * (14 / 10) + 128) * (11 / 10))"

text \<open>
  The order the specification rules out: brightness first, contrast second, as a formula
  and as the same pass would compute it on Numbers.
\<close>

definition spec_reversed :: "int \<Rightarrow> rat" where
  "spec_reversed v = clamp 0 255 ((of_int v * (11 / 10) - 128) * (14 / 10) + 128)"

definition reversed_channel :: "byte \<Rightarrow> byte" where
  "reversed_channel v =
     word_of_int (ToUint8Clamp (limit (contrast (brightness (num_of_int (uint v))))))"

text \<open>\<open>nearest_even x k\<close>: the integer \<open>k\<close> is \<open>x\<close> rounded to nearest, a tie going to the even one.\<close>

definition nearest_even :: "rat \<Rightarrow> int \<Rightarrow> bool" where
  "nearest_even x k \<longleftrightarrow> \<bar>of_int k - x\<bar> < 1 / 2 \<or> (\<bar>of_int k - x\<bar> = 1 / 2 \<and> even k)"

section \<open>The camera page and its state\<close>

text \<open>
  The camera module keeps four variables (\<open>stream\<close>, \<open>cameraActive\<close>, \<open>cameraFacing\<close>,
  \<open>capturedImage\<close>) and drives the elements of its page. The state below holds the
  variables, the properties of the elements that the module writes, and a trace of what
  the module does to the outside: alerts, camera requests, streams acquired and released,
  requests to the save endpoint. Console output is not modelled.

  The page template is not part of the sources. The elements that the module dereferences
  without a test (\<open>video\<close>, \<open>canvas\<close>, \<open>preview\<close>, the start and save buttons, the two
  views and the two control bars) are taken to exist; the switch button, the title field
  and the folder selection, which the module only touches behind a test, are optional.

  The operations that wait (for the camera, for the metadata of the video, for the save
  endpoint) are first modelled as one step each: an operation runs to its end, with the
  answer of the outside given as an argument. The section on overlapping starts then
  takes \<open>startCamera\<close> apart at its first \<open>await\<close>, so that other calls can run while a
  request for the camera is pending.
\<close>

text \<open>A JavaScript string, as its UTF-16 code units.\<close>

type_synonym jsstring = "nat list"

datatype facing = User | Environment

datatype display = DUnset | DNone | DBlock | DFlex | DInlineBlock

text \<open>
  The captions the module gives to its buttons: the one of the template, "starting"
  (line 88), "start the camera" (lines 172 and 380), "processing" (line 332), "save"
  (lines 359 and 365).
\<close>

datatype label = LabelPage | LabelStarting | LabelStartCamera | LabelProcessing | LabelSave

text \<open>An exception: its \<open>name\<close>, as far as line 159 to 165 tell names apart, and its message.\<close>

datatype error_name = NotAllowedError | NotFoundError | NotReadableError | OtherError

datatype js_error = JsError error_name jsstring

text \<open>
  The texts shown to the user, by the line that shows them: no camera support (54), no
  camera found (64), the four texts of a failed start (158 to 167), camera not active
  (209), capture failed (261), nothing to save (321), saved (351), the reason given by the
  server or the default text (357), no connection (363).
\<close>

datatype message =
    MsgUnsupported
  | MsgNoCamera
  | MsgAccessDenied
  | MsgAccessNotFound
  | MsgAccessBusy
  | MsgAccessOther jsstring
  | MsgNotActive
  | MsgCaptureFailed
  | MsgNothingToSave
  | MsgSaved
  | MsgRejected jsstring
  | MsgSaveFailed
  | MsgConnection

record constraints =
  facingMode :: facing
  width_ideal :: nat
  width_min :: nat
  height_ideal :: nat
  height_min :: nat
  aspectRatio_ideal :: rat

datatype focus_mode = Continuous | SingleShot | OtherFocus

text \<open>
  What \<open>getCapabilities\<close> reports, as far as the module reads it: the focus modes, if the
  property is there, and the maximal width and height, if they are there.
\<close>

record capabilities =
  cap_focusMode :: "focus_mode list option"
  cap_width_max :: "nat option"
  cap_height_max :: "nat option"

record settings =
  set_focusMode :: "focus_mode option"
  set_width :: "nat option"
  set_height :: "nat option"

text \<open>The body of the request to the save endpoint, and the answer read from it.\<close>

record save_request =
  req_image :: jsstring
  req_title :: jsstring
  req_folder_id :: "jsstring option"

record save_result =
  res_success :: bool
  res_redirect_url :: "jsstring option"
  res_error :: "jsstring option"

text \<open>
  What the module does to the outside. \<open>Acquired i\<close>: \<open>getUserMedia\<close> has delivered the
  stream \<open>i\<close>; \<open>Released i\<close>: the tracks of the stream \<open>i\<close> have been stopped.
\<close>

datatype event =
    ShowError message
  | ShowSuccess message
  | GetUserMedia constraints
  | Acquired nat
  | Released nat
  | VideoPlay
  | ApplyConstraints settings
  | FocusTitle
  | Fetch save_request
  | NavigateLater "jsstring option"

record page =
  stream :: "nat option"
  cameraActive :: bool
  cameraFacing :: facing
  capturedImage :: "jsstring option"
  video_srcObject :: "nat option"
  canvas :: ImageData
  preview_src :: "jsstring option"
  titleInput :: "jsstring option"
  folderSelect :: "jsstring option"
  startBtn_disabled :: bool
  startBtn_label :: label
  startBtn_display :: display
  switchBtn_display :: "display option"
  saveBtn_disabled :: bool
  saveBtn_label :: label
  cameraView :: display
  previewView :: display
  captureControls :: display
  previewControls :: display
  next_stream :: nat
  trace :: "event list"

definition emit :: "event \<Rightarrow> page \<Rightarrow> page" where
  "emit e s = s\<lparr>trace := trace s @ [e]\<rparr>"

definition showError :: "message \<Rightarrow> page \<Rightarrow> page" where
  "showError m s = emit (ShowError m) s"

definition showSuccess :: "message \<Rightarrow> page \<Rightarrow> page" where
  "showSuccess m s = emit (ShowSuccess m) s"

section \<open>The camera session\<close>

subsection \<open>\<open>checkCameraAvailability\<close>\<close>

datatype device_kind = VideoInput | AudioInput | AudioOutput

text \<open>
  What the platform answers: no \<open>mediaDevices\<close> or no \<open>getUserMedia\<close> at all; or else
  an enumeration, which throws or yields the list of the devices.
\<close>

datatype enumeration = Throws js_error | Devices "device_kind list"

datatype check_env = NoMediaDevices | MediaDevices enumeration

text \<open>The \<open>try\<close> block (lines 60 to 72): an exception leaves it as \<open>Inl\<close>.\<close>

definition check_try :: "enumeration \<Rightarrow> page \<Rightarrow> js_error + page" where
  "check_try enumerated s =
     (case enumerated of
        Throws error \<Rightarrow> Inl error
      | Devices devices \<Rightarrow>
          (let videoDevices = filter (\<lambda>device. device = VideoInput) devices
           in if length videoDevices = 0
              then Inr ((showError MsgNoCamera s)\<lparr>startBtn_disabled := True\<rparr>)
              else if 1 < length videoDevices \<and> switchBtn_display s \<noteq> None
              then Inr (s\<lparr>switchBtn_display := Some DInlineBlock\<rparr>)
              else Inr s))"

text \<open>The whole function: the \<open>catch\<close> block only writes to the console.\<close>

definition checkCameraAvailability :: "check_env \<Rightarrow> page \<Rightarrow> js_error + page" where
  "checkCameraAvailability env s =
     (case env of
        NoMediaDevices \<Rightarrow> Inr ((showError MsgUnsupported s)\<lparr>startBtn_disabled := True\<rparr>)
      | MediaDevices enumerated \<Rightarrow>
          (case check_try enumerated s of
             Inl error \<Rightarrow> Inr s
           | Inr s' \<Rightarrow> Inr s'))"

subsection \<open>\<open>stopCamera\<close> and \<open>updateUI\<close>\<close>

definition stopCamera :: "page \<Rightarrow> page" where
  "stopCamera s =
     (let s = (case stream s of
                 Some i \<Rightarrow> (emit (Released i) s)\<lparr>stream := None\<rparr>
               | None \<Rightarrow> s)
      in s\<lparr>video_srcObject := None, cameraActive := False\<rparr>)"

definition updateUI :: "page \<Rightarrow> page" where
  "updateUI s =
     (if cameraActive s
      then s\<lparr>startBtn_display := DNone, cameraView := DBlock, captureControls := DFlex\<rparr>
      else s\<lparr>startBtn_display := DInlineBlock, startBtn_disabled := False,
             startBtn_label := LabelStartCamera, cameraView := DNone,
             captureControls := DNone\<rparr>)"

subsection \<open>\<open>startCamera\<close>\<close>

definition camera_constraints :: "facing \<Rightarrow> constraints" where
  "camera_constraints f =
     \<lparr>facingMode = f, width_ideal = 1920, width_min = 1280,
      height_ideal = 1080, height_min = 720, aspectRatio_ideal = 16 / 9\<rparr>"

text \<open>The settings asked for after the start (lines 122 to 139).\<close>

definition choose_settings :: "capabilities \<Rightarrow> settings" where
  "choose_settings capabilities =
     \<lparr>set_focusMode =
        (case cap_focusMode capabilities of
           None \<Rightarrow> None
         | Some modes \<Rightarrow>
             if Continuous \<in> set modes then Some Continuous
             else if SingleShot \<in> set modes then Some SingleShot
             else None),
      set_width =
        (case cap_width_max capabilities of
           None \<Rightarrow> None
         | Some m \<Rightarrow> if m \<noteq> 0 then Some (min m 1920) else None),
      set_height =
        (case cap_height_max capabilities of
           None \<Rightarrow> None
         | Some m \<Rightarrow> if m \<noteq> 0 then Some (min m 1080) else None)\<rparr>"

text \<open>
  A start that no other call interrupts, run to its end in one step. How it can go:
  \<open>getUserMedia\<close> never settles (the user leaves the question of the
  browser unanswered), so the function stays suspended there; \<open>getUserMedia\<close> rejects;
  the stream arrives but the metadata of the video never do, so the function stays
  suspended there; reading the track or its capabilities throws; or the capabilities are
  read and \<open>applyConstraints\<close> succeeds or fails (a failure is only logged).
\<close>

datatype start_env =
    GumPending
  | GumRejected js_error
  | MetadataPending
  | TrackThrows js_error
  | Negotiated capabilities bool

text \<open>Lines 85 to 108: the button, the previous stream, the request.\<close>

definition request_camera :: "page \<Rightarrow> page" where
  "request_camera s =
     (let s = s\<lparr>startBtn_disabled := True, startBtn_label := LabelStarting\<rparr>;
          s = (if stream s \<noteq> None then stopCamera s else s)
      in emit (GetUserMedia (camera_constraints (cameraFacing s))) s)"

text \<open>Lines 108 and 109: the platform hands out a new stream, which the video shows.\<close>

definition attach_stream :: "page \<Rightarrow> page" where
  "attach_stream s =
     (let i = next_stream s
      in (emit (Acquired i) s)\<lparr>stream := Some i, next_stream := i + 1,
            video_srcObject := Some i\<rparr>)"

text \<open>The \<open>catch\<close> block (lines 155 to 174).\<close>

fun access_message :: "js_error \<Rightarrow> message" where
  "access_message (JsError NotAllowedError m) = MsgAccessDenied"
| "access_message (JsError NotFoundError m) = MsgAccessNotFound"
| "access_message (JsError NotReadableError m) = MsgAccessBusy"
| "access_message (JsError OtherError m) = MsgAccessOther m"

definition start_failed :: "js_error \<Rightarrow> page \<Rightarrow> page" where
  "start_failed error s =
     (showError (access_message error) s)
       \<lparr>startBtn_disabled := False, startBtn_label := LabelStartCamera\<rparr>"

fun startCamera :: "start_env \<Rightarrow> page \<Rightarrow> page" where
  "startCamera GumPending s = request_camera s"
| "startCamera (GumRejected error) s = start_failed error (request_camera s)"
| "startCamera MetadataPending s = attach_stream (request_camera s)"
| "startCamera (TrackThrows error) s =
     start_failed error (emit VideoPlay (attach_stream (request_camera s)))"
| "startCamera (Negotiated capabilities applied) s =
     updateUI
       ((emit (ApplyConstraints (choose_settings capabilities))
          (emit VideoPlay (attach_stream (request_camera s))))\<lparr>cameraActive := True\<rparr>)"

subsection \<open>\<open>switchCamera\<close>\<close>

definition switchCamera :: "start_env \<Rightarrow> page \<Rightarrow> page" where
  "switchCamera env s =
     (let s = s\<lparr>cameraFacing := (if cameraFacing s = Environment then User else Environment)\<rparr>
      in if cameraActive s then startCamera env s else s)"

section \<open>Capture, retake and save\<close>

subsection \<open>\<open>capturePhoto\<close>\<close>

text \<open>
  What the video and the canvas give at the moment of a capture: the size of the frame,
  whether the canvas has a 2D context, and the samples that \<open>getImageData\<close> reads back
  after the frame has been drawn. \<open>getImageData\<close> throws when the width or the height is 0.
\<close>

record capture_env =
  videoWidth :: nat
  videoHeight :: nat
  context_ok :: bool
  pixels :: "byte list"

definition blank :: "nat \<Rightarrow> nat \<Rightarrow> ImageData" where
  "blank w h = \<lparr>width = w, height = h, data = replicate (4 * w * h) 0\<rparr>"

text \<open>
  The JPEG encoder behind \<open>canvas.toDataURL\<close> is not part of the sources: it is the
  parameter \<open>toDataURL\<close>.
\<close>

definition capturePhoto :: "(ImageData \<Rightarrow> jsstring) \<Rightarrow> capture_env \<Rightarrow> page \<Rightarrow> page" where
  "capturePhoto toDataURL env s =
     (if \<not> cameraActive s then showError MsgNotActive s
      else
        let s = s\<lparr>canvas := blank (videoWidth env) (videoHeight env)\<rparr>
        in if \<not> context_ok env \<or> videoWidth env = 0 \<or> videoHeight env = 0
           then showError MsgCaptureFailed s
           else
             let imageData =
                   \<lparr>width = videoWidth env, height = videoHeight env, data = pixels env\<rparr>;
                 enhancedData = enhanceImageForOCR imageData;
                 dataUrl = toDataURL enhancedData;
                 s = s\<lparr>canvas := enhancedData, preview_src := Some dataUrl,
                       capturedImage := Some dataUrl,
                       cameraView := DNone, captureControls := DNone,
                       previewView := DFlex, previewControls := DFlex\<rparr>;
                 s = stopCamera s
             in if titleInput s \<noteq> None then emit FocusTitle s else s)"

subsection \<open>\<open>retakePhoto\<close>\<close>

definition retakePhoto :: "start_env \<Rightarrow> page \<Rightarrow> page" where
  "retakePhoto env s =
     startCamera env
       (s\<lparr>capturedImage := None,
           previewView := DNone, previewControls := DNone,
           cameraView := DBlock, captureControls := DFlex\<rparr>)"

subsection \<open>\<open>saveDocument\<close>\<close>

text \<open>The code units that \<open>String.prototype.trim\<close> removes: white space and line terminators.\<close>

definition is_whitespace :: "nat \<Rightarrow> bool" where
  "is_whitespace c \<longleftrightarrow>
     c \<in> {9, 10, 11, 12, 13, 32, 160, 5760, 8232, 8233, 8239, 8287, 12288, 65279}
     \<or> (8192 \<le> c \<and> c \<le> 8202)"

definition trim :: "jsstring \<Rightarrow> jsstring" where
  "trim s = rev (dropWhile is_whitespace (rev (dropWhile is_whitespace s)))"

text \<open>
  The default title (line 325): the word of four Cyrillic letters and a space, followed by
  the date and time as the locale prints them, which is the argument \<open>now\<close>.
\<close>

definition default_title :: "jsstring \<Rightarrow> jsstring" where
  "default_title now = [1057, 1082, 1072, 1085, 32] @ now"

text \<open>Lines 325, 326 and 340 to 344: the body sent for the image \<open>img\<close>.\<close>

definition save_body :: "jsstring \<Rightarrow> page \<Rightarrow> jsstring \<Rightarrow> save_request" where
  "save_body now s img =
     (let typed = (case titleInput s of Some v \<Rightarrow> trim v | None \<Rightarrow> []);
          title = (if typed \<noteq> [] then typed else default_title now);
          chosen = (case folderSelect s of Some v \<Rightarrow> v | None \<Rightarrow> []);
          folderId = (if chosen \<noteq> [] then Some chosen else None)
      in \<lparr>req_image = img, req_title = title, req_folder_id = folderId\<rparr>)"

text \<open>
  How the request can go: \<open>fetch\<close> or the reading of the answer throws, or an answer is
  read.
\<close>

datatype save_env = FetchThrows | Responded save_result

definition save_enabled :: "page \<Rightarrow> page" where
  "save_enabled s = s\<lparr>saveBtn_disabled := False, saveBtn_label := LabelSave\<rparr>"

definition saveDocument :: "jsstring \<Rightarrow> save_env \<Rightarrow> page \<Rightarrow> page" where
  "saveDocument now env s =
     (case capturedImage s of
        None \<Rightarrow> showError MsgNothingToSave s
      | Some img \<Rightarrow>
          if img = [] then showError MsgNothingToSave s
          else
            let body = save_body now s img;
                s = s\<lparr>saveBtn_disabled := True, saveBtn_label := LabelProcessing\<rparr>;
                s = emit (Fetch body) s
            in (case env of
                  FetchThrows \<Rightarrow> save_enabled (showError MsgConnection s)
                | Responded result \<Rightarrow>
                    if res_success result
                    then emit (NavigateLater (res_redirect_url result)) (showSuccess MsgSaved s)
                    else save_enabled
                           (showError
                              (case res_error result of
                                 None \<Rightarrow> MsgSaveFailed
                               | Some e \<Rightarrow> if e \<noteq> [] then MsgRejected e else MsgSaveFailed)
                              s)))"

section \<open>Sequences of operations\<close>

text \<open>
  In a sequence every operation runs to its end before the next one begins: no call is
  made while a start is suspended and later goes on. Such calls are the subject of the
  next section.
\<close>

datatype operation =
    Check check_env
  | Start start_env
  | Switch start_env
  | Stop
  | Capture capture_env
  | Retake start_env
  | Save jsstring save_env

fun step :: "(ImageData \<Rightarrow> jsstring) \<Rightarrow> page \<Rightarrow> operation \<Rightarrow> page" where
  "step toDataURL s (Check env) =
     (case checkCameraAvailability env s of Inl error \<Rightarrow> s | Inr s' \<Rightarrow> s')"
| "step toDataURL s (Start env) = startCamera env s"
| "step toDataURL s (Switch env) = switchCamera env s"
| "step toDataURL s Stop = stopCamera s"
| "step toDataURL s (Capture env) = capturePhoto toDataURL env s"
| "step toDataURL s (Retake env) = retakePhoto env s"
| "step toDataURL s (Save now env) = saveDocument now env s"

definition run :: "(ImageData \<Rightarrow> jsstring) \<Rightarrow> operation list \<Rightarrow> page \<Rightarrow> page" where
  "run toDataURL ops s = foldl (step toDataURL) s ops"

section \<open>Overlapping starts\<close>

text \<open>
  \<open>startCamera\<close> is an \<open>async\<close> function, and neither the click handlers (lines 37 to
  43) nor \<open>retakePhoto\<close> (line 313) wait for it. A call runs up to \<open>await getUserMedia\<close>
  (line 108) and is suspended there, keeping nothing of its own: the variable \<open>stream\<close>
  is assigned only when the request has settled, and the function then goes on from the
  variables as they are at that moment. Until then any other call can run, another
  \<open>startCamera\<close> among them.

  A move is: a call of \<open>startCamera\<close> that runs to line 108 (\<open>Enter\<close>); a pending request
  that settles, after which its start runs on, to the \<open>catch\<close> block when the request is
  rejected and to its next \<open>await\<close>, the wait for the metadata (line 112), when a stream is
  delivered (\<open>Settle\<close>); or one of the operations above, run to its end (\<open>Run\<close>).
\<close>

datatype settlement = Rejected js_error | Delivered

datatype move = Enter | Settle settlement | Run operation

fun settle :: "settlement \<Rightarrow> page \<Rightarrow> page" where
  "settle (Rejected error) s = start_failed error s"
| "settle Delivered s = attach_stream s"

text \<open>
  \<open>play\<close> runs a list of moves; \<open>n\<close> counts the requests that are pending. A list that
  settles a request nobody has made is not a run of the program: the result is \<open>None\<close>.
\<close>

fun play :: "(ImageData \<Rightarrow> jsstring) \<Rightarrow> move list \<Rightarrow> nat \<Rightarrow> page \<Rightarrow> page option" where
  "play toDataURL [] n s = Some s"
| "play toDataURL (Enter # moves) n s = play toDataURL moves (n + 1) (request_camera s)"
| "play toDataURL (Settle x # moves) n s =
     (if n = 0 then None else play toDataURL moves (n - 1) (settle x s))"
| "play toDataURL (Run operation # moves) n s =
     play toDataURL moves n (step toDataURL s operation)"

text \<open>The state when the page has been loaded (lines 24 to 27), nothing done yet.\<close>

definition initial :: "page \<Rightarrow> bool" where
  "initial s \<longleftrightarrow>
     stream s = None \<and> \<not> cameraActive s \<and> cameraFacing s = Environment \<and>
     capturedImage s = None \<and> video_srcObject s = None \<and> trace s = []"

text \<open>The streams acquired and not yet released, after a trace.\<close>

fun hold :: "nat list \<Rightarrow> event \<Rightarrow> nat list" where
  "hold h (Acquired i) = i # h"
| "hold h (Released i) = removeAll i h"
| "hold h e = h"

definition held :: "event list \<Rightarrow> nat list" where
  "held t = foldl hold [] t"

text \<open>
  The invariant of the trace: at no point are two streams held. \<open>safe_from h t\<close> follows
  the trace \<open>t\<close> from a moment at which the streams \<open>h\<close> are held.
\<close>

fun safe_from :: "nat list \<Rightarrow> event list \<Rightarrow> bool" where
  "safe_from h [] \<longleftrightarrow> length h \<le> 1"
| "safe_from h (e # es) \<longleftrightarrow> length h \<le> 1 \<and> safe_from (hold h e) es"

definition inv :: "page \<Rightarrow> bool" where
  "inv s \<longleftrightarrow>
     safe_from [] (trace s) \<and>
     held (trace s) = (case stream s of None \<Rightarrow> [] | Some i \<Rightarrow> [i]) \<and>
     (cameraActive s \<longrightarrow> stream s \<noteq> None) \<and>
     video_srcObject s = stream s"

section \<open>The notions of the specification\<close>

text \<open>A captured image is held when \<open>capturedImage\<close> is neither \<open>null\<close> nor the empty string.\<close>

definition image_held :: "page \<Rightarrow> bool" where
  "image_held s \<longleftrightarrow> capturedImage s \<noteq> None \<and> capturedImage s \<noteq> Some []"

text \<open>
  The view state of the specification, read off the two views: LIVE when the camera view
  is shown and the preview is hidden, PREVIEW when it is the other way round.
\<close>

datatype ViewState = LIVE | PREVIEW

definition viewState :: "page \<Rightarrow> ViewState option" where
  "viewState s =
     (if cameraView s \<noteq> DNone \<and> previewView s = DNone then Some LIVE
      else if cameraView s = DNone \<and> previewView s \<noteq> DNone then Some PREVIEW
      else None)"

text \<open>
  The two reports of \<open>checkAvailability\<close>, read off the page: the camera is usable as long
  as the start button is enabled, and several cameras are reported by showing the switch
  button.
\<close>

definition usable :: "page \<Rightarrow> bool" where
  "usable s \<longleftrightarrow> \<not> startBtn_disabled s"

definition multiple :: "page \<Rightarrow> bool" where
  "multiple s \<longleftrightarrow> switchBtn_display s = Some DInlineBlock"

section \<open>A page for the examples\<close>

text \<open>
  The page just loaded, with every optional element present, the views hidden, an empty
  title field and no folder chosen.
\<close>

definition loaded_page :: page where
  "loaded_page =
     \<lparr>stream = None, cameraActive = False, cameraFacing = Environment, capturedImage = None,
      video_srcObject = None, canvas = blank 0 0, preview_src = None,
      titleInput = Some [], folderSelect = Some [],
      startBtn_disabled = False, startBtn_label = LabelPage, startBtn_display = DUnset,
      switchBtn_display = Some DNone,
      saveBtn_disabled = False, saveBtn_label = LabelPage,
      cameraView = DNone, previewView = DNone, captureControls = DNone, previewControls = DNone,
      next_stream = 0, trace = []\<rparr>"

section \<open>Properties of the enhancement pass\<close>

subsection \<open>The stored byte, for each of the 256 inputs\<close>

text \<open>
  The pass is evaluated on every byte value, in four blocks of 64. Each block is then
  compared with the formula of the specification.
\<close>

lemma enhance_block0:
  "map (\<lambda>n. ToUint8Clamp (enhance_number (num_of_int n))) [0..63] =
     [0, 0, 0, 0, 0, 0, 0, 0, 0, 0, 0, 0, 0, 0, 0, 0,
      0, 0, 0, 0, 0, 0, 0, 0, 0, 0, 0, 0, 0, 0, 0, 0,
      0, 0, 0, 0, 0, 1, 2, 4, 5, 7, 8, 10, 11, 13, 15, 16,
      18, 19, 21, 22, 24, 25, 27, 28, 30, 31, 33, 35, 36, 38, 39, 41]"
  by code_simp

lemma enhance_block1:
  "map (\<lambda>n. ToUint8Clamp (enhance_number (num_of_int n))) [64..127] =
     [42, 44, 45, 47, 48, 50, 51, 53, 55, 56, 58, 59, 61, 62, 64, 65,
      67, 68, 70, 72, 73, 75, 76, 78, 79, 81, 82, 84, 85, 87, 88, 90,
      92, 93, 95, 96, 98, 99, 101, 102, 104, 105, 107, 108, 110, 112, 113, 115,
      116, 118, 119, 121, 122, 124, 125, 127, 128, 130, 132, 133, 135, 136, 138, 139]"
  by code_simp

lemma enhance_block2:
  "map (\<lambda>n. ToUint8Clamp (enhance_number (num_of_int n))) [128..191] =
     [141, 142, 144, 145, 147, 148, 150, 152, 153, 155, 156, 158, 159, 161, 162, 164,
      165, 167, 169, 170, 172, 173, 175, 176, 178, 179, 181, 182, 184, 185, 187, 189,
      190, 192, 193, 195, 196, 198, 199, 201, 202, 204, 205, 207, 209, 210, 212, 213,
      215, 216, 218, 219, 221, 222, 224, 226, 227, 229, 230, 232, 233, 235, 236, 238]"
  by code_simp

lemma enhance_block3:
  "map (\<lambda>n. ToUint8Clamp (enhance_number (num_of_int n))) [192..255] =
     [239, 241, 242, 244, 246, 247, 249, 250, 252, 253, 255, 255, 255, 255, 255, 255,
      255, 255, 255, 255, 255, 255, 255, 255, 255, 255, 255, 255, 255, 255, 255, 255,
      255, 255, 255, 255, 255, 255, 255, 255, 255, 255, 255, 255, 255, 255, 255, 255,
      255, 255, 255, 255, 255, 255, 255, 255, 255, 255, 255, 255, 255, 255, 255, 255]"
  by code_simp

subsection \<open>The constants\<close>

text \<open>
  The mantissas of the two factors are 14/10 and 11/10 scaled by \<open>2 ^ 52\<close> and rounded
  to the nearest integer: the literals \<open>1.4\<close> and \<open>1.1\<close> as binary64 values.
\<close>

lemma contrastFactor_nearest:
  "nearest_even (14 / 10 * 2 ^ 52) 6305039478318694 \<and>
   num_val contrastFactor = 6305039478318694 / 2 ^ 52 \<and>
   \<bar>num_val contrastFactor - 14 / 10\<bar> \<le> 1 / 2 ^ 53"
  by (simp add: contrastFactor_def nearest_even_def pow2_def)

lemma brightnessFactor_nearest:
  "nearest_even (11 / 10 * 2 ^ 52) 4953959590107546 \<and>
   num_val brightnessFactor = 4953959590107546 / 2 ^ 52 \<and>
   \<bar>num_val brightnessFactor - 11 / 10\<bar> \<le> 1 / 2 ^ 53"
  by (simp add: brightnessFactor_def nearest_even_def pow2_def)

subsection \<open>The values stay within binary64\<close>

text \<open>
  For each of the 256 inputs, every Number on the way from the sample to the stored value
  is zero or a normal binary64 value. So the exponent range, which the model leaves out,
  is never reached, and the model computes what binary64 arithmetic computes.
\<close>

lemma enhance_steps_last: "last (enhance_steps n) = enhance_number (num_of_int n)"
  by (simp add: enhance_steps_def enhance_number_def limit_def brightness_def contrast_def Let_def)

lemma is_binary64_consts: "is_binary64 (num_of_int 0)" "is_binary64 (num_of_int 255)"
  by code_simp+

lemma is_binary64_max: "is_binary64 a \<Longrightarrow> is_binary64 b \<Longrightarrow> is_binary64 (Math_max a b)"
  by (cases a; cases b) auto

lemma is_binary64_min: "is_binary64 a \<Longrightarrow> is_binary64 b \<Longrightarrow> is_binary64 (Math_min a b)"
  by (cases a; cases b) auto

lemma steps_ok_binary64:
  assumes "steps_ok n"
  shows "list_all is_binary64 (enhance_steps n)"
proof -
  let ?r1 = "num_sub (num_of_int n) (num_of_int 128)"
  let ?r2 = "num_mul ?r1 contrastFactor"
  let ?r3 = "num_add ?r2 (num_of_int 128)"
  let ?r4 = "num_mul ?r3 brightnessFactor"
  from assms have 0: "is_binary64 (num_of_int n)" and 1: "is_binary64 ?r1"
    and 2: "is_binary64 ?r2" and 3: "is_binary64 ?r3" and 4: "is_binary64 ?r4"
    by (auto simp: steps_ok_def split: number.splits)
  have 5: "is_binary64 (Math_max (num_of_int 0) ?r4)"
    using is_binary64_consts(1) 4 by (rule is_binary64_max)
  have 6: "is_binary64 (Math_min (num_of_int 255) (Math_max (num_of_int 0) ?r4))"
    using is_binary64_consts(2) 5 by (rule is_binary64_min)
  from 0 1 2 3 4 5 6 show ?thesis
    by (simp add: enhance_steps_def Let_def)
qed

lemma steps_block0: "\<forall>n\<in>set [0..63]. steps_ok n"
  by code_simp
lemma steps_block1: "\<forall>n\<in>set [64..127]. steps_ok n"
  by code_simp
lemma steps_block2: "\<forall>n\<in>set [128..191]. steps_ok n"
  by code_simp
lemma steps_block3: "\<forall>n\<in>set [192..255]. steps_ok n"
  by code_simp

lemma enhance_steps_binary64:
  assumes "0 \<le> n" and "n \<le> 255"
  shows "list_all is_binary64 (enhance_steps n)"
proof -
  from assms have "n \<in> {0..63} \<or> n \<in> {64..127} \<or> n \<in> {128..191} \<or> n \<in> {192..255}"
    by auto
  then have "steps_ok n"
    using steps_block0 steps_block1 steps_block2 steps_block3 unfolding set_upto by blast
  then show ?thesis by (rule steps_ok_binary64)
qed

subsection \<open>The typed array conversion stays within a byte\<close>

lemma div_pow2_less:
  fixes m :: int
  assumes "m < c * 2 ^ d"
  shows "m div 2 ^ d < c"
proof (rule ccontr)
  assume "\<not> m div 2 ^ d < c"
  then have "c \<le> m div 2 ^ d" by simp
  then have "c * 2 ^ d \<le> (m div 2 ^ d) * 2 ^ d" by (simp add: mult_right_mono)
  moreover have "(m div 2 ^ d) * 2 ^ d + m mod 2 ^ d = m" by (rule div_mult_mod_eq)
  moreover have "0 \<le> m mod 2 ^ d" by simp
  ultimately show False using assms by linarith
qed

lemma ToUint8Clamp_range: "0 \<le> ToUint8Clamp x \<and> ToUint8Clamp x \<le> 255"
proof (cases x)
  case NaN
  then show ?thesis by simp
next
  case (Fin m e)
  show ?thesis
  proof (cases "0 \<le> e")
    case True
    with Fin show ?thesis by (auto simp: Let_def min_def)
  next
    case False
    define d where "d = nat (- e)"
    have p: "(0::int) < 2 ^ d" by simp
    { assume a: "0 < m" "m < 255 * 2 ^ d"
      have "0 \<le> m div 2 ^ d" using a p by (simp add: pos_imp_zdiv_nonneg_iff)
      moreover have "m div 2 ^ d < 255" using a(2) by (rule div_pow2_less)
      ultimately have "0 \<le> rne m d \<and> rne m d \<le> 255" by (auto simp: rne_def Let_def) }
    with Fin False show ?thesis by (auto simp: Let_def min_def d_def)
  qed
qed


subsection \<open>The loop over the buffer\<close>

text \<open>
  The loop started at index \<open>i\<close> replaces the samples at \<open>i\<close>, \<open>i + 1\<close>, \<open>i + 2\<close>,
  \<open>i + 4\<close>, ... by their enhanced values and leaves every other element as it was.
\<close>

lemma nth_set_elem:
  "j < length d \<Longrightarrow> set_elem d i x ! j = (if j = i then word_of_int (ToUint8Clamp x) else d ! j)"
  by (simp add: set_elem_def nth_list_update)

lemma nth_enhance_pixel:
  assumes "j < length d"
  shows "enhance_pixel d i ! j =
           (if j = i \<or> j = i + 1 \<or> j = i + 2 then enhance_channel (d ! j) else d ! j)"
  using assms
  by (simp add: enhance_pixel_def Let_def nth_set_elem length_set_elem get_elem_def
      enhance_channel_def enhance_number_def)

lemma nth_enhance_loop:
  "j < length d \<Longrightarrow>
     enhance_loop i d ! j =
       (if i \<le> j \<and> (j - i) mod 4 \<noteq> 3 then enhance_channel (d ! j) else d ! j)"
proof (induction i d rule: enhance_loop.induct)
  case (1 i d)
  show ?case
  proof (cases "i < length d")
    case False
    with "1.prems" show ?thesis by (simp add: enhance_loop.simps)
  next
    case True
    let ?d = "enhance_pixel d i"
    have len: "j < length ?d" using "1.prems" by (simp add: length_enhance_pixel)
    have step: "enhance_loop i d ! j = enhance_loop (i + 4) ?d ! j"
      using True by (subst enhance_loop.simps) simp
    have ih: "enhance_loop (i + 4) ?d ! j =
        (if i + 4 \<le> j \<and> (j - (i + 4)) mod 4 \<noteq> 3 then enhance_channel (?d ! j) else ?d ! j)"
      using "1.IH" [OF True len] .
    have m: "i + 4 \<le> j \<Longrightarrow> (j - (i + 4)) mod 4 = (j - i) mod 4"
      by (auto simp: le_iff_add)
    show ?thesis
    proof (cases "i + 4 \<le> j")
      case True
      then show ?thesis
        using step ih m "1.prems" by (simp add: nth_enhance_pixel)
    next
      case False
      then have "j < i \<or> j = i \<or> j = i + 1 \<or> j = i + 2 \<or> j = i + 3" by arith
      then show ?thesis
        using step ih False "1.prems" by (auto simp: nth_enhance_pixel)
    qed
  qed
qed

lemma length_enhance_loop: "length (enhance_loop i d) = length d"
proof (induction i d rule: enhance_loop.induct)
  case (1 i d)
  then show ?case
    by (subst enhance_loop.simps) (simp add: length_enhance_pixel)
qed

subsection \<open>Comparison with the formula\<close>

lemma formula_block0:
  "list_all2 (\<lambda>n k. nearest_even (spec_enhance n) k) [0..63]
     [0, 0, 0, 0, 0, 0, 0, 0, 0, 0, 0, 0, 0, 0, 0, 0,
      0, 0, 0, 0, 0, 0, 0, 0, 0, 0, 0, 0, 0, 0, 0, 0,
      0, 0, 0, 0, 0, 1, 2, 4, 5, 7, 8, 10, 11, 13, 15, 16,
      18, 19, 21, 22, 24, 25, 27, 28, 30, 31, 33, 35, 36, 38, 39, 41]"
  by (simp add: upto_rec1 nearest_even_def spec_enhance_def clamp_def)

lemma formula_block1:
  "list_all2 (\<lambda>n k. nearest_even (spec_enhance n) k) [64..127]
     [42, 44, 45, 47, 48, 50, 51, 53, 55, 56, 58, 59, 61, 62, 64, 65,
      67, 68, 70, 72, 73, 75, 76, 78, 79, 81, 82, 84, 85, 87, 88, 90,
      92, 93, 95, 96, 98, 99, 101, 102, 104, 105, 107, 108, 110, 112, 113, 115,
      116, 118, 119, 121, 122, 124, 125, 127, 128, 130, 132, 133, 135, 136, 138, 139]"
  by (simp add: upto_rec1 nearest_even_def spec_enhance_def clamp_def)

lemma formula_block2:
  "list_all2 (\<lambda>n k. nearest_even (spec_enhance n) k) [128..191]
     [141, 142, 144, 145, 147, 148, 150, 152, 153, 155, 156, 158, 159, 161, 162, 164,
      165, 167, 169, 170, 172, 173, 175, 176, 178, 179, 181, 182, 184, 185, 187, 189,
      190, 192, 193, 195, 196, 198, 199, 201, 202, 204, 205, 207, 209, 210, 212, 213,
      215, 216, 218, 219, 221, 222, 224, 226, 227, 229, 230, 232, 233, 235, 236, 238]"
  by (simp add: upto_rec1 nearest_even_def spec_enhance_def clamp_def)

lemma formula_block3:
  "list_all2 (\<lambda>n k. nearest_even (spec_enhance n) k) [192..255]
     [239, 241, 242, 244, 246, 247, 249, 250, 252, 253, 255, 255, 255, 255, 255, 255,
      255, 255, 255, 255, 255, 255, 255, 255, 255, 255, 255, 255, 255, 255, 255, 255,
      255, 255, 255, 255, 255, 255, 255, 255, 255, 255, 255, 255, 255, 255, 255, 255,
      255, 255, 255, 255, 255, 255, 255, 255, 255, 255, 255, 255, 255, 255, 255, 255]"
  by (simp add: upto_rec1 nearest_even_def spec_enhance_def clamp_def)

lemma list_all2_map_same:
  "list_all2 P xs (map f xs) \<longleftrightarrow> (\<forall>x\<in>set xs. P x (f x))"
  by (simp add: list_all2_map2 list_all2_same)

lemma enhance_number_nearest:
  assumes "0 \<le> n" and "n \<le> 255"
  shows "nearest_even (spec_enhance n) (ToUint8Clamp (enhance_number (num_of_int n)))"
proof -
  let ?P = "\<lambda>n k. nearest_even (spec_enhance n) k"
  let ?f = "\<lambda>n. ToUint8Clamp (enhance_number (num_of_int n))"
  have b0: "\<forall>n\<in>{0..63}. ?P n (?f n)"
    using formula_block0 unfolding enhance_block0 [symmetric] list_all2_map_same set_upto .
  have b1: "\<forall>n\<in>{64..127}. ?P n (?f n)"
    using formula_block1 unfolding enhance_block1 [symmetric] list_all2_map_same set_upto .
  have b2: "\<forall>n\<in>{128..191}. ?P n (?f n)"
    using formula_block2 unfolding enhance_block2 [symmetric] list_all2_map_same set_upto .
  have b3: "\<forall>n\<in>{192..255}. ?P n (?f n)"
    using formula_block3 unfolding enhance_block3 [symmetric] list_all2_map_same set_upto .
  from assms have "n \<in> {0..63} \<or> n \<in> {64..127} \<or> n \<in> {128..191} \<or> n \<in> {192..255}"
    by auto
  with b0 b1 b2 b3 show ?thesis by blast
qed

lemma uint_enhance_channel:
  "uint (enhance_channel v) = ToUint8Clamp (enhance_number (num_of_int (uint v)))"
proof -
  let ?k = "ToUint8Clamp (enhance_number (num_of_int (uint v)))"
  have "0 \<le> ?k" and "?k \<le> 255" using ToUint8Clamp_range by blast+
  then have "uint (word_of_int ?k :: byte) = ?k"
    by (simp add: uint_word_of_int take_bit_eq_mod)
  then show ?thesis by (simp add: enhance_channel_def)
qed

lemma enhance_channel_nearest:
  "nearest_even (spec_enhance (uint v)) (uint (enhance_channel v))"
proof -
  have "uint v < 2 ^ 8" using uint_bounded [of v] by simp
  then have "uint v \<le> 255" by simp
  then show ?thesis
    unfolding uint_enhance_channel by (intro enhance_number_nearest) simp_all
qed

lemma enhance_channel_samples:
  "enhance_channel 83 = 72" "enhance_channel 128 = 141" "enhance_channel 133 = 148"
  by code_simp+

lemma enhance_channel_boundary:
  "enhance_channel 0 = 0" "enhance_channel 128 = 141" "enhance_channel 255 = 255"
  by code_simp+

subsection \<open>The claims about the enhancement pass\<close>

text \<open>
  Claim C1. For every pixel buffer and every colour sample (an index \<open>i\<close> inside the
  buffer that is not an alpha position), the pass stores \<open>enhance_channel v\<close> for the
  sample \<open>v\<close> it found there. That byte is the value
  \<open>clamp(0, 255, ((v - 128) * 1.4 + 128) * 1.1)\<close> of the specification, computed over the
  rationals, rounded to the nearest integer (a tie goes to the even one, which is the
  conversion of the typed array). The integer stored lies in 0..255 before it is made a
  byte, and so does the conversion of any Number whatever. The pass is a function of the
  buffer alone and has no failing branch, so it is deterministic and total.
\<close>

theorem enhance_follows_formula:
  assumes "i < length (data imageData)" and "i mod 4 \<noteq> 3"
  shows "data (enhanceImageForOCR imageData) ! i = enhance_channel (data imageData ! i) \<and>
         nearest_even (spec_enhance (uint (data imageData ! i)))
           (uint (data (enhanceImageForOCR imageData) ! i)) \<and>
         uint (data (enhanceImageForOCR imageData) ! i) =
           ToUint8Clamp (enhance_number (num_of_int (uint (data imageData ! i)))) \<and>
         0 \<le> uint (data (enhanceImageForOCR imageData) ! i) \<and>
         uint (data (enhanceImageForOCR imageData) ! i) \<le> 255 \<and>
         (\<forall>x. 0 \<le> ToUint8Clamp x \<and> ToUint8Clamp x \<le> 255)"
proof -
  have eq: "data (enhanceImageForOCR imageData) ! i = enhance_channel (data imageData ! i)"
    using assms by (simp add: enhanceImageForOCR_def nth_enhance_loop)
  show ?thesis
    unfolding eq
    using enhance_channel_nearest uint_enhance_channel ToUint8Clamp_range by auto
qed

theorem enhance_follows_formula_witness:
  "(1::nat) < length (data \<lparr>width = 1, height = 1, data = [83, 128, 255, 77]\<rparr>) \<and>
   (1::nat) mod 4 \<noteq> 3 \<and>
   data (enhanceImageForOCR \<lparr>width = 1, height = 1, data = [83, 128, 255, 77]\<rparr>) ! 1 = 141 \<and>
   nearest_even (spec_enhance 128)
     (uint (data (enhanceImageForOCR \<lparr>width = 1, height = 1, data = [83, 128, 255, 77]\<rparr>) ! 1))"
  using enhance_follows_formula [of 1 "\<lparr>width = 1, height = 1, data = [83, 128, 255, 77]\<rparr>"]
  by (simp add: enhance_channel_samples nearest_even_def spec_enhance_def clamp_def)

text \<open>
  Claim C2. The three boundary cases of the specification, as the pass computes them: in
  a buffer of three pixels that carries each of the samples 0, 128 and 255 once in the
  red, once in the green and once in the blue position, \<open>enhanceImageForOCR\<close> turns
  every 0 into 0, every 128 into 141 and every 255 into 255, and leaves the three alpha
  samples as they are.
\<close>

theorem enhance_boundary_cases:
  "data (enhanceImageForOCR
      \<lparr>width = 3, height = 1,
       data = [0, 128, 255, a, 255, 0, 128, b, 128, 255, 0, c]\<rparr>) =
     [0, 141, 255, a, 255, 0, 141, b, 141, 255, 0, c]"
proof -
  let ?d = "[0, 128, 255, a, 255, 0, 128, b, 128, 255, 0, c]"
  let ?e = "[0, 141, 255, a, 255, 0, 141, b, 141, 255, 0, c]"
  have "enhance_loop 0 ?d ! j = ?e ! j" if "j < 12" for j
  proof -
    from that have "j \<in> {0, 1, 2, 3, 4, 5, 6, 7, 8, 9, 10, 11}"
      by (simp only: insert_iff empty_iff) arith
    then show ?thesis
      by (auto simp: nth_enhance_loop enhance_channel_boundary)
  qed
  then have "enhance_loop 0 ?d = ?e"
    by (intro nth_equalityI) (simp_all add: length_enhance_loop)
  then show ?thesis by (simp add: enhanceImageForOCR_def)
qed

text \<open>
  Claim C3. Contrast followed by brightness differs from brightness followed by contrast:
  for the sample 128 the two orders give different bytes when computed on Numbers, and
  the two formulas of the specification give different rationals.
\<close>

theorem contrast_brightness_order_matters:
  "\<exists>v :: byte. enhance_channel v \<noteq> reversed_channel v \<and>
     spec_enhance (uint v) \<noteq> spec_reversed (uint v)"
proof (rule exI [of _ 128], rule conjI)
  show "enhance_channel 128 \<noteq> reversed_channel 128" by code_simp
  show "spec_enhance (uint (128 :: byte)) \<noteq> spec_reversed (uint (128 :: byte))"
    by (simp add: spec_enhance_def spec_reversed_def clamp_def)
qed

text \<open>
  Claim C4. The pass leaves the width, the height and the number of samples of the buffer
  unchanged, and every alpha sample (index \<open>i\<close> with \<open>i mod 4 = 3\<close>) keeps its value:
  only the R, G and B samples are modified.
\<close>

theorem enhance_keeps_alpha_and_size:
  "width (enhanceImageForOCR imageData) = width imageData \<and>
   height (enhanceImageForOCR imageData) = height imageData \<and>
   length (data (enhanceImageForOCR imageData)) = length (data imageData) \<and>
   (\<forall>i < length (data imageData). i mod 4 = 3 \<longrightarrow>
      data (enhanceImageForOCR imageData) ! i = data imageData ! i)"
  by (simp add: enhanceImageForOCR_def length_enhance_loop nth_enhance_loop)

theorem enhance_keeps_alpha_and_size_witness:
  "(3::nat) < length (data \<lparr>width = 1, height = 1, data = [83, 128, 255, 77]\<rparr>) \<and>
   (3::nat) mod 4 = 3 \<and>
   data (enhanceImageForOCR \<lparr>width = 1, height = 1, data = [83, 128, 255, 77]\<rparr>) ! 3 = 77 \<and>
   length (data (enhanceImageForOCR \<lparr>width = 1, height = 1, data = [83, 128, 255, 77]\<rparr>)) = 4"
  using enhance_keeps_alpha_and_size [of "\<lparr>width = 1, height = 1, data = [83, 128, 255, 77]\<rparr>"]
  by simp

section \<open>Properties of the camera session and of the pipeline\<close>

subsection \<open>The streams held along a trace\<close>

lemma held_Nil: "held [] = []"
  by (simp add: held_def)

lemma held_append: "held (t @ es) = foldl hold (held t) es"
  by (simp add: held_def)

lemma safe_from_append:
  "safe_from h (t @ es) \<longleftrightarrow> safe_from h t \<and> safe_from (foldl hold h t) es"
proof (induction t arbitrary: h)
  case Nil
  show ?case by (cases es) auto
next
  case (Cons e t)
  then show ?case by auto
qed

lemma safe_append: "safe_from [] (t @ es) \<longleftrightarrow> safe_from [] t \<and> safe_from (held t) es"
  by (simp add: safe_from_append held_def)

lemma safe_from_take: "safe_from h t \<Longrightarrow> length (foldl hold h (take n t)) \<le> 1"
proof (induction t arbitrary: h n)
  case Nil
  then show ?case by simp
next
  case (Cons e t)
  then show ?case by (cases n) auto
qed

lemma safe_from_iff: "safe_from [] t \<longleftrightarrow> (\<forall>n. length (held (take n t)) \<le> 1)"
proof
  assume "safe_from [] t"
  then show "\<forall>n. length (held (take n t)) \<le> 1"
    unfolding held_def using safe_from_take by blast
next
  assume a: "\<forall>n. length (held (take n t)) \<le> 1"
  have "(\<forall>n. length (foldl hold h (take n t)) \<le> 1) \<Longrightarrow> safe_from h t" for h
  proof (induction t arbitrary: h)
    case Nil
    then show ?case by simp
  next
    case (Cons e t)
    from Cons.prems have "length (foldl hold h (take 0 (e # t))) \<le> 1" by blast
    then have h: "length h \<le> 1" by simp
    have "length (foldl hold (hold h e) (take n t)) \<le> 1" for n
      using Cons.prems [rule_format, of "Suc n"] by simp
    then have "safe_from (hold h e) t" by (intro Cons.IH) blast
    with h show ?case by simp
  qed
  with a show "safe_from [] t" by (simp add: held_def)
qed

subsection \<open>Every operation keeps the invariant\<close>

text \<open>
  The invariant \<open>inv\<close>: the trace never holds two streams, the stream held at its end
  is the one in the variable \<open>stream\<close>, the camera is only active with a stream, and the
  video shows the stream held.
\<close>

lemma inv_initial: "initial s \<Longrightarrow> inv s"
  by (simp add: initial_def inv_def held_Nil)

lemma inv_stopCamera: "inv s \<Longrightarrow> inv (stopCamera s) \<and> stream (stopCamera s) = None"
  by (auto simp: inv_def stopCamera_def emit_def safe_append held_append split: option.splits)

lemma inv_request_camera:
  "inv s \<Longrightarrow> inv (request_camera s) \<and> stream (request_camera s) = None"
  by (auto simp: inv_def request_camera_def stopCamera_def emit_def safe_append held_append Let_def
      split: option.splits)

lemma inv_attach_stream:
  "inv s \<Longrightarrow> stream s = None \<Longrightarrow> inv (attach_stream s) \<and> stream (attach_stream s) \<noteq> None"
  by (auto simp: inv_def attach_stream_def emit_def safe_append held_append Let_def)

lemma inv_start_failed: "inv s \<Longrightarrow> inv (start_failed error s)"
  by (auto simp: inv_def start_failed_def showError_def emit_def safe_append held_append
      split: option.splits)

lemma stream_start_failed: "stream (start_failed error s) = stream s"
  by (simp add: start_failed_def showError_def emit_def)

lemma inv_emit_VideoPlay: "inv s \<Longrightarrow> inv (emit VideoPlay s) \<and> stream (emit VideoPlay s) = stream s"
  by (auto simp: inv_def emit_def safe_append held_append split: option.splits)

lemma inv_startCamera: "inv s \<Longrightarrow> inv (startCamera env s)"
proof -
  assume a: "inv s"
  note r = inv_request_camera [OF a]
  note t = inv_attach_stream [OF r [THEN conjunct1] r [THEN conjunct2]]
  show ?thesis
  proof (cases env)
    case GumPending
    with r show ?thesis by simp
  next
    case (GumRejected e)
    with r show ?thesis by (simp add: inv_start_failed)
  next
    case MetadataPending
    with t show ?thesis by simp
  next
    case (TrackThrows e)
    with t show ?thesis by (simp add: inv_start_failed inv_emit_VideoPlay)
  next
    case (Negotiated caps ok)
    with t show ?thesis
      by (auto simp: inv_def updateUI_def emit_def safe_append held_append)
  qed
qed

lemma inv_switchCamera: "inv s \<Longrightarrow> inv (switchCamera env s)"
proof -
  assume a: "inv s"
  let ?s = "s\<lparr>cameraFacing := (if cameraFacing s = Environment then User else Environment)\<rparr>"
  from a have "inv ?s" by (simp add: inv_def)
  then have "inv (startCamera env ?s)" by (rule inv_startCamera)
  with \<open>inv ?s\<close> show ?thesis by (simp add: switchCamera_def Let_def)
qed

lemma inv_capturePhoto: "inv s \<Longrightarrow> inv (capturePhoto toDataURL env s)"
  by (auto simp: inv_def capturePhoto_def stopCamera_def showError_def emit_def safe_append held_append Let_def split: option.splits)

lemma inv_retakePhoto: "inv s \<Longrightarrow> inv (retakePhoto env s)"
proof -
  assume a: "inv s"
  then have "inv (s\<lparr>capturedImage := None, previewView := DNone, previewControls := DNone,
      cameraView := DBlock, captureControls := DFlex\<rparr>)"
    by (simp add: inv_def)
  then show ?thesis unfolding retakePhoto_def by (rule inv_startCamera)
qed

lemma inv_saveDocument: "inv s \<Longrightarrow> inv (saveDocument now env s)"
  by (auto simp: inv_def saveDocument_def save_enabled_def showError_def showSuccess_def emit_def
      safe_append held_append Let_def split: option.splits save_env.splits)

lemma inv_check: "inv s \<Longrightarrow> checkCameraAvailability env s = Inr s' \<Longrightarrow> inv s'"
  by (auto simp: inv_def checkCameraAvailability_def check_try_def showError_def emit_def
      safe_append held_append Let_def
      split: if_splits check_env.splits enumeration.splits option.splits)

lemma inv_step: "inv s \<Longrightarrow> inv (step toDataURL s operation)"
  by (cases operation)
     (auto simp: inv_startCamera inv_switchCamera inv_stopCamera inv_capturePhoto
        inv_retakePhoto inv_saveDocument inv_check split: sum.splits)

lemma inv_run: "inv s \<Longrightarrow> inv (run toDataURL ops s)"
  unfolding run_def by (induction ops arbitrary: s) (simp_all add: inv_step)

subsection \<open>What a start adds to the trace, and what it keeps\<close>

lemma trace_request_camera:
  "trace (request_camera s) =
     trace s @ (case stream s of None \<Rightarrow> [] | Some i \<Rightarrow> [Released i]) @
       [GetUserMedia (camera_constraints (cameraFacing s))]"
  by (simp add: request_camera_def stopCamera_def emit_def Let_def split: option.splits)

lemma trace_startCamera:
  "\<exists>rest. trace (startCamera env s) = trace (request_camera s) @ rest"
  by (cases env)
     (simp_all add: start_failed_def showError_def attach_stream_def emit_def updateUI_def Let_def)

lemma stopCamera_idle:
  assumes "stream s = None" and "\<not> cameraActive s" and "video_srcObject s = None"
  shows "stopCamera s = s"
  using assms by (cases s) (simp add: stopCamera_def)

lemma trace_startCamera_idle:
  assumes "stream s = None"
  shows "take (Suc (length (trace s))) (trace (startCamera env s)) =
           trace s @ [GetUserMedia (camera_constraints (cameraFacing s))]"
proof -
  obtain rest where "trace (startCamera env s) = trace (request_camera s) @ rest"
    using trace_startCamera by blast
  with assms show ?thesis by (simp add: trace_request_camera)
qed

lemma startCamera_keeps:
  "capturedImage (startCamera env s) = capturedImage s \<and>
   cameraFacing (startCamera env s) = cameraFacing s \<and>
   previewView (startCamera env s) = previewView s"
  by (cases env)
     (simp_all add: start_failed_def showError_def attach_stream_def emit_def updateUI_def
        request_camera_def stopCamera_def Let_def split: option.splits)

lemma startCamera_cameraView:
  "cameraView s = DBlock \<Longrightarrow> cameraView (startCamera env s) = DBlock"
  by (cases env)
     (simp_all add: start_failed_def showError_def attach_stream_def emit_def updateUI_def
        request_camera_def stopCamera_def Let_def split: option.splits)

lemma startCamera_Negotiated:
  "cameraActive (startCamera (Negotiated capabilities applied) s) \<and>
   stream (startCamera (Negotiated capabilities applied) s) \<noteq> None"
  by (simp add: attach_stream_def emit_def updateUI_def Let_def)

lemma default_title_not_empty: "default_title now \<noteq> []"
  by (simp add: default_title_def)

subsection \<open>Starts that do not overlap\<close>

text \<open>
  When every operation runs to its end before the next one begins (a start may also stay
  suspended for ever), the release at lines 91 to 94 does what it is written for. From
  the loaded page, after any such sequence and at every earlier moment of its trace, at
  most one stream is held, and the stream held at the end is the one in the variable
  \<open>stream\<close>. A start from such a state releases the stream held before it does anything
  else to the outside; \<open>stopCamera\<close> leaves no stream held, and changes nothing when none
  is held.
\<close>

lemma one_stream_without_overlap:
  assumes "initial s0"
  shows "let s = run toDataURL ops s0 in
           (\<forall>n. length (held (take n (trace s))) \<le> 1) \<and>
           held (trace s) = (case stream s of None \<Rightarrow> [] | Some i \<Rightarrow> [i]) \<and>
           (\<forall>env i. stream s = Some i \<longrightarrow>
              take (Suc (length (trace s))) (trace (startCamera env s)) =
                trace s @ [Released i]) \<and>
           stream (stopCamera s) = None \<and>
           held (trace (stopCamera s)) = [] \<and>
           (stream s = None \<longrightarrow> stopCamera s = s)"
proof -
  define s where "s = run toDataURL ops s0"
  have i: "inv s" unfolding s_def using assms by (intro inv_run inv_initial)
  have 1: "\<forall>n. length (held (take n (trace s))) \<le> 1"
    using i by (simp add: inv_def safe_from_iff)
  have 2: "held (trace s) = (case stream s of None \<Rightarrow> [] | Some i \<Rightarrow> [i])"
    using i by (simp add: inv_def)
  have 3: "take (Suc (length (trace s))) (trace (startCamera env s)) = trace s @ [Released i]"
    if "stream s = Some i" for env i
  proof -
    obtain rest where "trace (startCamera env s) = trace (request_camera s) @ rest"
      using trace_startCamera by blast
    with that show ?thesis by (simp add: trace_request_camera)
  qed
  have j: "inv (stopCamera s)" and 4: "stream (stopCamera s) = None"
    using inv_stopCamera [OF i] by simp_all
  have 5: "held (trace (stopCamera s)) = []"
    using j 4 by (simp add: inv_def)
  have 6: "stopCamera s = s" if "stream s = None"
    using that i by (intro stopCamera_idle) (auto simp: inv_def)
  from 1 2 3 4 5 6 show ?thesis
    unfolding s_def [symmetric] Let_def by blast
qed

subsection \<open>Starts that overlap\<close>

text \<open>
  A start that runs to its end at once is an \<open>Enter\<close> followed by a \<open>Settle\<close>, and a
  sequence of operations is a run of moves.
\<close>

lemma startCamera_as_moves:
  "startCamera GumPending s = request_camera s"
  "startCamera (GumRejected error) s = settle (Rejected error) (request_camera s)"
  "startCamera MetadataPending s = settle Delivered (request_camera s)"
  by simp_all

lemma play_sequential:
  "play toDataURL (map Run ops) n s = Some (run toDataURL ops s)"
  unfolding run_def by (induction ops arbitrary: s) simp_all

subsection \<open>The claims about capture, save and the session\<close>

text \<open>
  Claim C5. When the camera is not active, \<open>capturePhoto\<close> only shows the error
  "camera not active": no frame is read, the canvas and the captured image stay as they
  were, the view state is unchanged, and so is everything else in the state except the
  trace, which gains that one alert.
\<close>

theorem capture_requires_active_camera:
  assumes "\<not> cameraActive s"
  shows "capturePhoto toDataURL env s = s\<lparr>trace := trace s @ [ShowError MsgNotActive]\<rparr> \<and>
         capturedImage (capturePhoto toDataURL env s) = capturedImage s \<and>
         canvas (capturePhoto toDataURL env s) = canvas s \<and>
         viewState (capturePhoto toDataURL env s) = viewState s"
  using assms by (simp add: capturePhoto_def showError_def emit_def viewState_def)

theorem capture_requires_active_camera_witness:
  "\<not> cameraActive loaded_page \<and>
   capturePhoto (\<lambda>imageData. [100])
     \<lparr>videoWidth = 1, videoHeight = 1, context_ok = True, pixels = [0, 128, 255, 255]\<rparr>
     loaded_page = loaded_page\<lparr>trace := [ShowError MsgNotActive]\<rparr>"
  using capture_requires_active_camera [of loaded_page "\<lambda>imageData. [100]"
      "\<lparr>videoWidth = 1, videoHeight = 1, context_ok = True, pixels = [0, 128, 255, 255]\<rparr>"]
  by (simp add: loaded_page_def)

text \<open>
  Claim C6. When no captured image is held, \<open>saveDocument\<close> only shows the error
  "nothing to save": the state is unchanged except for that alert, and no request to the
  save endpoint is among the events it adds.
\<close>

theorem save_requires_image:
  assumes "\<not> image_held s"
  shows "saveDocument now env s = s\<lparr>trace := trace s @ [ShowError MsgNothingToSave]\<rparr> \<and>
         (\<forall>request. Fetch request \<notin>
            set (drop (length (trace s)) (trace (saveDocument now env s))))"
  using assms
  by (auto simp: saveDocument_def image_held_def showError_def emit_def split: option.splits)

theorem save_requires_image_witness:
  "\<not> image_held loaded_page \<and>
   saveDocument [50] FetchThrows loaded_page =
     loaded_page\<lparr>trace := [ShowError MsgNothingToSave]\<rparr>"
  using save_requires_image [of loaded_page "[50]" FetchThrows]
  by (simp add: loaded_page_def image_held_def)

text \<open>
  Claim C7. After a capture that succeeds (the camera is active, the canvas has a context,
  the frame is not empty) the preview is shown and the encoded image is held. A retake
  then gives the LIVE view and holds no image, whatever the camera answers, so that
  \<open>saveDocument\<close> only shows "nothing to save". The first thing the retake does to the
  outside is to request the camera with the facing in use at the capture, which it keeps;
  when the start goes through, the camera is active again with a stream.
\<close>

theorem retake_discards_image:
  assumes "cameraActive s" and "context_ok cenv"
    and "videoWidth cenv \<noteq> 0" and "videoHeight cenv \<noteq> 0"
  shows "let s1 = capturePhoto toDataURL cenv s; s2 = retakePhoto senv s1 in
           capturedImage s1 =
             Some (toDataURL (enhanceImageForOCR
               \<lparr>width = videoWidth cenv, height = videoHeight cenv, data = pixels cenv\<rparr>)) \<and>
           viewState s1 = Some PREVIEW \<and>
           viewState s2 = Some LIVE \<and>
           capturedImage s2 = None \<and>
           saveDocument now fenv s2 = s2\<lparr>trace := trace s2 @ [ShowError MsgNothingToSave]\<rparr> \<and>
           take (Suc (length (trace s1))) (trace s2) =
             trace s1 @ [GetUserMedia (camera_constraints (cameraFacing s))] \<and>
           cameraFacing s2 = cameraFacing s \<and>
           (\<forall>capabilities applied. senv = Negotiated capabilities applied \<longrightarrow>
              cameraActive s2 \<and> stream s2 \<noteq> None)"
proof -
  define s1 where "s1 = capturePhoto toDataURL cenv s"
  define r where "r = s1\<lparr>capturedImage := None, previewView := DNone, previewControls := DNone,
      cameraView := DBlock, captureControls := DFlex\<rparr>"
  define s2 where "s2 = retakePhoto senv s1"
  have s2: "s2 = startCamera senv r" by (simp add: s2_def r_def retakePhoto_def)
  have c: "capturedImage s1 =
      Some (toDataURL (enhanceImageForOCR
        \<lparr>width = videoWidth cenv, height = videoHeight cenv, data = pixels cenv\<rparr>))"
    and v1: "viewState s1 = Some PREVIEW" and st: "stream s1 = None"
    and f1: "cameraFacing s1 = cameraFacing s"
    using assms
    by (simp_all add: s1_def capturePhoto_def stopCamera_def emit_def viewState_def Let_def
        split: option.splits)
  have r: "stream r = None" "trace r = trace s1" "cameraFacing r = cameraFacing s"
    "capturedImage r = None" "previewView r = DNone" "cameraView r = DBlock"
    using st f1 by (simp_all add: r_def)
  have v2: "viewState s2 = Some LIVE"
    using r startCamera_keeps [of senv r] startCamera_cameraView [of r senv]
    by (simp add: s2 viewState_def)
  have c2: "capturedImage s2 = None" and f2: "cameraFacing s2 = cameraFacing s"
    using r startCamera_keeps [of senv r] by (simp_all add: s2)
  have sv: "saveDocument now fenv s2 = s2\<lparr>trace := trace s2 @ [ShowError MsgNothingToSave]\<rparr>"
    using c2 by (simp add: saveDocument_def showError_def emit_def)
  have t: "take (Suc (length (trace s1))) (trace s2) =
      trace s1 @ [GetUserMedia (camera_constraints (cameraFacing s))]"
    using trace_startCamera_idle [OF r(1), of senv] r by (simp add: s2)
  have n: "cameraActive s2 \<and> stream s2 \<noteq> None" if "senv = Negotiated capabilities applied"
    for capabilities applied
    using that startCamera_Negotiated [of capabilities applied r] by (simp add: s2)
  from c v1 v2 c2 sv t f2 n show ?thesis
    unfolding s1_def [symmetric] s2_def [symmetric] Let_def by blast
qed

theorem retake_discards_image_witness:
  "cameraActive (startCamera (Negotiated \<lparr>cap_focusMode = Some [Continuous], cap_width_max = Some 4000, cap_height_max = None\<rparr> True) loaded_page) \<and>
   context_ok \<lparr>videoWidth = 1, videoHeight = 1, context_ok = True, pixels = [0, 128, 255, 255]\<rparr> \<and>
   videoWidth \<lparr>videoWidth = 1, videoHeight = 1, context_ok = True, pixels = [0, 128, 255, 255]\<rparr> \<noteq> 0 \<and>
   videoHeight \<lparr>videoWidth = 1, videoHeight = 1, context_ok = True, pixels = [0, 128, 255, 255]\<rparr> \<noteq> 0 \<and>
   viewState (retakePhoto MetadataPending (capturePhoto (\<lambda>imageData. [100])
     \<lparr>videoWidth = 1, videoHeight = 1, context_ok = True, pixels = [0, 128, 255, 255]\<rparr>
     (startCamera (Negotiated \<lparr>cap_focusMode = Some [Continuous], cap_width_max = Some 4000, cap_height_max = None\<rparr> True) loaded_page))) = Some LIVE \<and>
   capturedImage (retakePhoto MetadataPending (capturePhoto (\<lambda>imageData. [100])
     \<lparr>videoWidth = 1, videoHeight = 1, context_ok = True, pixels = [0, 128, 255, 255]\<rparr>
     (startCamera (Negotiated \<lparr>cap_focusMode = Some [Continuous], cap_width_max = Some 4000, cap_height_max = None\<rparr> True) loaded_page))) = None"
  using retake_discards_image [of "startCamera (Negotiated \<lparr>cap_focusMode = Some [Continuous], cap_width_max = Some 4000, cap_height_max = None\<rparr> True) loaded_page"
      "\<lparr>videoWidth = 1, videoHeight = 1, context_ok = True, pixels = [0, 128, 255, 255]\<rparr>"
      "\<lambda>imageData. [100]" MetadataPending "[50]" FetchThrows]
  by (simp add: Let_def startCamera_Negotiated del: startCamera.simps)


text \<open>
  Claim C9. \<open>checkCameraAvailability\<close> always returns normally, also when the enumeration
  throws. It reports the camera as not usable, by disabling the start button and showing
  an error, exactly when the platform has no camera access at all or the enumeration
  yields no video input; in every other case, an enumeration that throws among them, the
  start button and the trace stay as they were. On a page that has a switch button, not
  yet shown, it shows the button (reports several cameras) exactly when the enumeration
  yields two or more video inputs.
\<close>

theorem check_reports:
  "\<exists>s'. checkCameraAvailability env s = Inr s' \<and>
     (if env = NoMediaDevices \<or>
         (\<exists>devices. env = MediaDevices (Devices devices) \<and>
            length (filter (\<lambda>device. device = VideoInput) devices) = 0)
      then \<not> usable s' \<and>
           (\<exists>m. trace s' = trace s @ [ShowError m] \<and> (m = MsgUnsupported \<or> m = MsgNoCamera))
      else usable s' = usable s \<and> trace s' = trace s) \<and>
     (switchBtn_display s \<noteq> None \<and> \<not> multiple s \<longrightarrow>
        (multiple s' \<longleftrightarrow>
           (\<exists>devices. env = MediaDevices (Devices devices) \<and>
              2 \<le> length (filter (\<lambda>device. device = VideoInput) devices))))"
proof (cases env)
  case NoMediaDevices
  then show ?thesis
    by (simp add: checkCameraAvailability_def usable_def multiple_def showError_def emit_def)
next
  case (MediaDevices enumerated)
  show ?thesis
  proof (cases enumerated)
    case (Throws error)
    with MediaDevices show ?thesis
      by (simp add: checkCameraAvailability_def check_try_def)
  next
    case (Devices devices)
    with MediaDevices show ?thesis
      by (auto simp: checkCameraAvailability_def check_try_def usable_def multiple_def
          showError_def emit_def Let_def)
  qed
qed

theorem check_reports_witness:
  "usable loaded_page \<and> switchBtn_display loaded_page \<noteq> None \<and> \<not> multiple loaded_page \<and>
   (\<exists>s'. checkCameraAvailability (MediaDevices (Devices [VideoInput, AudioInput, VideoInput]))
           loaded_page = Inr s' \<and> usable s' \<and> multiple s' \<and> trace s' = [])"
  using check_reports [of "MediaDevices (Devices [VideoInput, AudioInput, VideoInput])" loaded_page]
  by (auto simp: usable_def multiple_def loaded_page_def)

text \<open>
  Claim C10. When a captured image is held, the first thing \<open>saveDocument\<close> does to the
  outside is the request to the save endpoint, and it sends no other. The request carries
  the image held, a title that is not empty and a folder that is not the empty string:
  when the title field is absent or empty after trimming, the title is the default one,
  and when the folder selection is absent or empty, the folder is \<open>null\<close>.
\<close>

theorem save_sends_title_and_folder:
  assumes "image_held s"
  shows "\<exists>img. capturedImage s = Some img \<and>
           take (Suc (length (trace s))) (trace (saveDocument now env s)) =
             trace s @ [Fetch (save_body now s img)] \<and>
           (\<forall>request. Fetch request \<in>
                set (drop (length (trace s)) (trace (saveDocument now env s))) \<longrightarrow>
              request = save_body now s img) \<and>
           req_image (save_body now s img) = img \<and>
           req_title (save_body now s img) \<noteq> [] \<and>
           req_folder_id (save_body now s img) \<noteq> Some [] \<and>
           ((case titleInput s of None \<Rightarrow> [] | Some v \<Rightarrow> trim v) = [] \<longrightarrow>
              req_title (save_body now s img) = default_title now \<and> default_title now \<noteq> []) \<and>
           ((case folderSelect s of None \<Rightarrow> [] | Some v \<Rightarrow> v) = [] \<longrightarrow>
              req_folder_id (save_body now s img) = None)"
proof -
  from assms obtain img where img: "capturedImage s = Some img" "img \<noteq> []"
    by (auto simp: image_held_def)
  have t: "take (Suc (length (trace s))) (trace (saveDocument now env s)) =
      trace s @ [Fetch (save_body now s img)]"
    and o: "\<forall>request. Fetch request \<in>
        set (drop (length (trace s)) (trace (saveDocument now env s))) \<longrightarrow>
      request = save_body now s img"
    using img
    by (auto simp: saveDocument_def save_enabled_def showError_def showSuccess_def emit_def
        Let_def split: save_env.splits)
  have b: "req_image (save_body now s img) = img"
    "req_title (save_body now s img) \<noteq> []"
    "req_folder_id (save_body now s img) \<noteq> Some []"
    "(case titleInput s of None \<Rightarrow> [] | Some v \<Rightarrow> trim v) = [] \<longrightarrow>
       req_title (save_body now s img) = default_title now \<and> default_title now \<noteq> []"
    "(case folderSelect s of None \<Rightarrow> [] | Some v \<Rightarrow> v) = [] \<longrightarrow>
       req_folder_id (save_body now s img) = None"
    by (auto simp: save_body_def Let_def default_title_not_empty split: option.splits)
  from img(1) t o b show ?thesis by blast
qed

theorem save_sends_title_and_folder_witness:
  "image_held (loaded_page\<lparr>capturedImage := Some [100], titleInput := Some [32, 9]\<rparr>) \<and>
   (\<exists>img. capturedImage (loaded_page\<lparr>capturedImage := Some [100], titleInput := Some [32, 9]\<rparr>)
            = Some img \<and>
      req_title (save_body [50]
         (loaded_page\<lparr>capturedImage := Some [100], titleInput := Some [32, 9]\<rparr>) img)
        = [1057, 1082, 1072, 1085, 32, 50] \<and>
      req_folder_id (save_body [50]
         (loaded_page\<lparr>capturedImage := Some [100], titleInput := Some [32, 9]\<rparr>) img) = None)"
  using save_sends_title_and_folder
    [of "loaded_page\<lparr>capturedImage := Some [100], titleInput := Some [32, 9]\<rparr>" "[50]" FetchThrows]
  by (auto simp: image_held_def loaded_page_def default_title_def trim_def is_whitespace_def)

end
